theory Spec2Isabelle
  imports Main "HOL-Library.Product_Lexorder"
begin

section \<open>Python values used by the market-calendar helpers\<close>

text \<open>
  The functions verified here are \<^verbatim>\<open>us_market_holidays\<close>, \<^verbatim>\<open>b_is_stock_market_open\<close>,
  \<^verbatim>\<open>get_next_stock_market_days\<close> and \<^verbatim>\<open>get_last_time_market_was_open\<close> of
  \<^verbatim>\<open>gamestonk_terminal/helper_funcs.py\<close>. Exceptions are values of type \<open>error\<close>; a
  function that may raise returns \<open>error + 'a\<close> with \<open>Inl\<close> for the exception.
\<close>

datatype error = KeyError | ValueError | OverflowError

text \<open>
  \<^verbatim>\<open>datetime.date\<close> has the fields year, month and day; \<^verbatim>\<open>datetime.datetime\<close> is
  its subclass with the clock fields, which the record extension mirrors. All fields are
  Python integers.
\<close>

record date =
  year :: int
  month :: int
  day :: int

record datetime = date +
  hour :: int
  minute :: int
  second :: int
  microsecond :: int

text \<open>The constructors \<^verbatim>\<open>date(y, m, d)\<close> and \<^verbatim>\<open>datetime(y, m, d, hh, mm, ss, us)\<close>.\<close>

definition mk_date :: "int \<Rightarrow> int \<Rightarrow> int \<Rightarrow> date" where
  "mk_date y m d = \<lparr>year = y, month = m, day = d\<rparr>"

definition mk_datetime :: "int \<Rightarrow> int \<Rightarrow> int \<Rightarrow> int \<Rightarrow> int \<Rightarrow> int \<Rightarrow> int \<Rightarrow> datetime" where
  "mk_datetime y m d hh mm ss us =
     \<lparr>year = y, month = m, day = d, hour = hh, minute = mm, second = ss, microsecond = us\<rparr>"

text \<open>\<^verbatim>\<open>dt.date()\<close>: the date part of a datetime, as a plain date object.\<close>

definition date_of :: "'a date_scheme \<Rightarrow> date" where
  "date_of d = \<lparr>year = year d, month = month d, day = day d\<rparr>"

text \<open>
  \<^verbatim>\<open>dt.time()\<close>: the clock part. Python compares \<^verbatim>\<open>time\<close> objects as the tuples
  (hour, minute, second, microsecond), which is the lexicographic order on the product.
\<close>

type_synonym pytime = "int \<times> int \<times> int \<times> int"

definition time_of :: "datetime \<Rightarrow> pytime" where
  "time_of dt = (hour dt, minute dt, second dt, microsecond dt)"

definition Time :: "int \<Rightarrow> int \<Rightarrow> int \<Rightarrow> pytime" where
  "Time h m s = (h, m, s, 0)"



text \<open>
  The objects that end up in the holiday lists and in the membership tests: strings and
  dates. Python's \<^verbatim>\<open>x in xs\<close> on a list compares with \<^verbatim>\<open>==\<close>, and a \<^verbatim>\<open>str\<close> is never
  equal to a \<^verbatim>\<open>datetime.date\<close>; the constructors keep the two apart in the same way.
\<close>

datatype pyval = PyStr string | PyDate date

definition py_in :: "pyval \<Rightarrow> pyval list \<Rightarrow> bool" where
  "py_in x xs = (x \<in> set xs)"

section \<open>The proleptic Gregorian calendar of Python's datetime module\<close>

definition is_leap :: "int \<Rightarrow> bool" where
  "is_leap y = (y mod 4 = 0 \<and> (y mod 100 \<noteq> 0 \<or> y mod 400 = 0))"

definition days_in_month :: "int \<Rightarrow> int \<Rightarrow> int" where
  "days_in_month y m =
     (if m = 2 then (if is_leap y then 29 else 28)
      else if m = 4 \<or> m = 6 \<or> m = 9 \<or> m = 11 then 30 else 31)"

definition days_before_year :: "int \<Rightarrow> int" where
  "days_before_year y =
     (y - 1) * 365 + (y - 1) div 4 - (y - 1) div 100 + (y - 1) div 400"

definition days_before_month_table :: "int list" where
  "days_before_month_table = [0, 31, 59, 90, 120, 151, 181, 212, 243, 273, 304, 334]"

definition days_before_month :: "int \<Rightarrow> int \<Rightarrow> int" where
  "days_before_month y m =
     (if 1 \<le> m \<and> m \<le> 12 then days_before_month_table ! nat (m - 1) else 0)
     + (if 2 < m \<and> is_leap y then 1 else 0)"

text \<open>\<^verbatim>\<open>date.toordinal()\<close>: day 1 is January 1 of year 1.\<close>

definition toordinal :: "'a date_scheme \<Rightarrow> int" where
  "toordinal d = days_before_year (year d) + days_before_month (year d) (month d) + day d"

text \<open>\<^verbatim>\<open>date.weekday()\<close>: Monday is 0 and Sunday is 6.\<close>

definition weekday :: "'a date_scheme \<Rightarrow> int" where
  "weekday d = (toordinal d + 6) mod 7"



text \<open>
  \<^verbatim>\<open>d + timedelta(hours=24)\<close> and \<^verbatim>\<open>d + timedelta(1)\<close>: the next calendar day with the
  clock fields unchanged. Python goes through the ordinal and raises \<^verbatim>\<open>OverflowError\<close>
  past December 31 of year 9999; \<open>toordinal_add_one_day\<close> below shows that the
  field-wise step is the ordinal plus one.
\<close>

definition add_one_day :: "'a date_scheme \<Rightarrow> error + 'a date_scheme" where
  "add_one_day d =
     (if day d < days_in_month (year d) (month d) then Inr (d\<lparr>day := day d + 1\<rparr>)
      else if month d < 12 then Inr (d\<lparr>month := month d + 1, day := 1\<rparr>)
      else if year d < 9999 then Inr (d\<lparr>year := year d + 1, month := 1, day := 1\<rparr>)
      else Inl OverflowError)"

text \<open>
  \<^verbatim>\<open>d - timedelta(hours=24)\<close>: the previous calendar day; \<^verbatim>\<open>OverflowError\<close> before
  January 1 of year 1.
\<close>

definition sub_one_day :: "'a date_scheme \<Rightarrow> error + 'a date_scheme" where
  "sub_one_day d =
     (if 1 < day d then Inr (d\<lparr>day := day d - 1\<rparr>)
      else if 1 < month d then
        Inr (d\<lparr>month := month d - 1, day := days_in_month (year d) (month d - 1)\<rparr>)
      else if 1 < year d then Inr (d\<lparr>year := year d - 1, month := 12, day := 31\<rparr>)
      else Inl OverflowError)"

section \<open>Formatting and parsing\<close>

definition digit_char :: "nat \<Rightarrow> char" where
  "digit_char n = ''0123456789'' ! n"

text \<open>\<^verbatim>\<open>str(n)\<close> for a Python integer, as the f-string \<^verbatim>\<open>f"{year}-01-01"\<close> uses it.\<close>

function str_nat :: "nat \<Rightarrow> string" where
  "str_nat n = (if n < 10 then [digit_char n] else str_nat (n div 10) @ [digit_char (n mod 10)])"
  by pat_completeness auto
termination
  by (relation "measure (\<lambda>n. n)") auto

declare str_nat.simps [simp del]

definition str_int :: "int \<Rightarrow> string" where
  "str_int i = (if i < 0 then CHR ''-'' # str_nat (nat (- i)) else str_nat (nat i))"

definition zero_pad :: "nat \<Rightarrow> string \<Rightarrow> string" where
  "zero_pad w s = replicate (w - length s) (CHR ''0'') @ s"

text \<open>
  \<^verbatim>\<open>dt.strftime("%Y-%m-%d")\<close>, with the documented zero padding (four digits for the
  year, two for month and day). A C library that does not pad prints a year below 1000
  shorter; the years from 1000 on, which the statements below evaluate, print the same.
\<close>

definition strftime_Ymd :: "'a date_scheme \<Rightarrow> string" where
  "strftime_Ymd d =
     zero_pad 4 (str_int (year d)) @ ''-'' @ zero_pad 2 (str_int (month d)) @ ''-'' @
     zero_pad 2 (str_int (day d))"

definition digit_table :: "(char \<times> int) list" where
  "digit_table = zip ''0123456789'' [0, 1, 2, 3, 4, 5, 6, 7, 8, 9]"

definition digit_val :: "char \<Rightarrow> int option" where
  "digit_val c = map_of digit_table c"

fun digits_val :: "string \<Rightarrow> int \<Rightarrow> int option" where
  "digits_val [] acc = Some acc"
| "digits_val (c # cs) acc =
     (case digit_val c of None \<Rightarrow> None | Some v \<Rightarrow> digits_val cs (10 * acc + v))"

text \<open>
  \<^verbatim>\<open>datetime.strptime(s, "%Y-%m-%d")\<close> on the strings this module passes to it, which
  all have two-digit months and days: the year must be exactly four digits (the
  directive \<^verbatim>\<open>%Y\<close> is the pattern \<^verbatim>\<open>\d\d\d\d\<close>), the separators must be hyphens, and the
  fields must form a date; anything else raises \<^verbatim>\<open>ValueError\<close>. The result is a datetime
  at midnight.
\<close>

definition strptime_Ymd :: "string \<Rightarrow> error + datetime" where
  "strptime_Ymd s =
     (if length s = 10 \<and> s ! 4 = CHR ''-'' \<and> s ! 7 = CHR ''-'' then
        (case digits_val (take 4 s) 0 of None \<Rightarrow> Inl ValueError
         | Some y \<Rightarrow>
        (case digits_val (take 2 (drop 5 s)) 0 of None \<Rightarrow> Inl ValueError
         | Some m \<Rightarrow>
        (case digits_val (drop 8 s) 0 of None \<Rightarrow> Inl ValueError
         | Some d \<Rightarrow>
            if 1 \<le> y \<and> 1 \<le> m \<and> m \<le> 12 \<and> 1 \<le> d \<and> d \<le> days_in_month y m
            then Inr \<lparr>year = y, month = m, day = d,
                      hour = 0, minute = 0, second = 0, microsecond = 0\<rparr>
            else Inl ValueError)))
      else Inl ValueError)"

section \<open>The external holiday source\<close>

text \<open>
  \<^verbatim>\<open>holidays.US\<close> is a third-party calendar. \<^verbatim>\<open>us_holidays(years=years)\<close> is a dictionary
  from dates to holiday names; it is a parameter of the model, given as the list of its
  items in iteration order. \<^verbatim>\<open>list(all_holidays)\<close> is the list of its keys and
  \<^verbatim>\<open>all_holidays[date]\<close> the lookup.
\<close>

type_synonym holiday_source = "int list \<Rightarrow> (date \<times> string) list"

text \<open>
  \<^verbatim>\<open>key in us_holidays()\<close> with a string key is the library's own membership test (it
  parses the key and fills in the year on demand); it is the second parameter.
\<close>

type_synonym holiday_lookup = "string \<Rightarrow> bool"

section \<open>us_market_holidays\<close>

text \<open>The argument \<^verbatim>\<open>years\<close> is an integer or a list of integers.\<close>

datatype years_arg = YearInt int | YearList "int list"

definition normalize_years :: "years_arg \<Rightarrow> int list" where
  "normalize_years years = (case years of YearInt y \<Rightarrow> [y] | YearList ys \<Rightarrow> ys)"

definition market_holidays :: "string list" where
  "market_holidays =
     [''Martin Luther King Jr. Day'', ''Washington's Birthday'', ''Memorial Day'',
      ''Independence Day'', ''Labor Day'', ''Thanksgiving'', ''Christmas Day'']"

definition market_and_observed_holidays :: "string list" where
  "market_and_observed_holidays =
     market_holidays @ map (\<lambda>holiday. holiday @ '' (Observed)'') market_holidays"

definition good_fridays_table :: "(int \<times> string) list" where
  "good_fridays_table =
     [(2010, ''2010-04-02''), (2011, ''2011-04-22''), (2012, ''2012-04-06''),
      (2013, ''2013-03-29''), (2014, ''2014-04-18''), (2015, ''2015-04-03''),
      (2016, ''2016-03-25''), (2017, ''2017-04-14''), (2018, ''2018-03-30''),
      (2019, ''2019-04-19''), (2020, ''2020-04-10''), (2021, ''2021-04-02''),
      (2022, ''2022-04-15''), (2023, ''2023-04-07''), (2024, ''2024-03-29''),
      (2025, ''2025-04-18''), (2026, ''2026-04-03''), (2027, ''2027-03-26''),
      (2028, ''2028-04-14''), (2029, ''2029-03-30''), (2030, ''2030-04-19'')]"

definition good_fridays :: "int \<rightharpoonup> string" where
  "good_fridays = map_of good_fridays_table"

text \<open>The first loop: the dates of the source whose name is a market holiday.\<close>

definition filter_market_holidays :: "(date \<times> string) list \<Rightarrow> pyval list" where
  "filter_market_holidays all_holidays =
     map PyDate
       (filter (\<lambda>date. case map_of all_holidays date of
                          Some name \<Rightarrow> name \<in> set market_and_observed_holidays
                        | None \<Rightarrow> False)
               (map fst all_holidays))"

text \<open>
  The second loop, over the years: New Year's Day unless it is a Saturday, and the
  Monday after it when it is a Sunday.
\<close>

fun new_year_loop :: "int list \<Rightarrow> pyval list \<Rightarrow> error + pyval list" where
  "new_year_loop [] valid_holidays = Inr valid_holidays"
| "new_year_loop (yr # rest) valid_holidays =
     (case strptime_Ymd (str_int yr @ ''-01-01'') of
        Inl e \<Rightarrow> Inl e
      | Inr new_Year \<Rightarrow>
          (let vh1 = (if weekday new_Year \<noteq> 5
                      then valid_holidays @ [PyDate (date_of new_Year)]
                      else valid_holidays)
           in if weekday new_Year = 6 then
                (case add_one_day (date_of new_Year) of
                   Inl e \<Rightarrow> Inl e
                 | Inr monday \<Rightarrow> new_year_loop rest (vh1 @ [PyDate monday]))
              else new_year_loop rest vh1))"

text \<open>The third loop: the Good Friday of each year, a \<^verbatim>\<open>KeyError\<close> outside the table.\<close>

fun good_friday_loop :: "int list \<Rightarrow> pyval list \<Rightarrow> error + pyval list" where
  "good_friday_loop [] valid_holidays = Inr valid_holidays"
| "good_friday_loop (yr # rest) valid_holidays =
     (case good_fridays yr of
        None \<Rightarrow> Inl KeyError
      | Some s \<Rightarrow>
          (case strptime_Ymd s of
             Inl e \<Rightarrow> Inl e
           | Inr d \<Rightarrow> good_friday_loop rest (valid_holidays @ [PyDate (date_of d)])))"

text \<open>What one round of the third loop appends.\<close>

definition good_friday_entry :: "int \<Rightarrow> error + pyval" where
  "good_friday_entry y =
     (case good_fridays y of
        None \<Rightarrow> Inl KeyError
      | Some s \<Rightarrow>
          (case strptime_Ymd s of Inl e \<Rightarrow> Inl e | Inr d \<Rightarrow> Inr (PyDate (date_of d))))"

text \<open>What one round of the second loop appends.\<close>

definition new_year_dates :: "int \<Rightarrow> pyval list" where
  "new_year_dates y =
     (if weekday (mk_date y 1 1) \<noteq> 5 then [PyDate (mk_date y 1 1)] else []) @
     (if weekday (mk_date y 1 1) = 6 then [PyDate (mk_date y 1 2)] else [])"

definition us_market_holidays :: "holiday_source \<Rightarrow> years_arg \<Rightarrow> error + pyval list" where
  "us_market_holidays us_holidays years0 =
     (let years = normalize_years years0;
          all_holidays = us_holidays years;
          valid_holidays = filter_market_holidays all_holidays
      in case new_year_loop years valid_holidays of
           Inl e \<Rightarrow> Inl e
         | Inr valid_holidays' \<Rightarrow> good_friday_loop years valid_holidays')"

section \<open>b_is_stock_market_open\<close>

text \<open>
  The wall-clock read \<^verbatim>\<open>datetime.now(timezone("US/Eastern"))\<close> is the argument \<open>now\<close>: the
  current time as its US/Eastern fields.
\<close>

definition b_is_stock_market_open :: "holiday_source \<Rightarrow> datetime \<Rightarrow> error + bool" where
  "b_is_stock_market_open us_holidays now =
     (if weekday (date_of now) > 4 then Inr False
      else
        (case us_market_holidays us_holidays (YearInt (year now)) of
           Inl e \<Rightarrow> Inl e
         | Inr holidays \<Rightarrow>
             if py_in (PyStr (strftime_Ymd now)) holidays then Inr False
             else if time_of now < Time 9 30 0 then Inr False
             else if time_of now > Time 16 0 0 then Inr False
             else Inr True))"

section \<open>get_next_stock_market_days\<close>

definition next_day_key :: "datetime \<Rightarrow> nat \<times> nat \<times> nat" where
  "next_day_key d = (nat (10000 - year d), nat (13 - month d), nat (32 - day d))"

lemma add_one_day_key:
  "add_one_day d = Inr d' \<Longrightarrow> next_day_key d' < next_day_key d"
  by (auto simp: add_one_day_def next_day_key_def days_in_month_def split: if_splits)

text \<open>
  The statement \<^verbatim>\<open>if year not in years: years.append(year); holidays += us_market_holidays(year)\<close>
  of the loop body: the two lists after it, or the exception of the call.
\<close>

definition extend_holidays ::
  "holiday_source \<Rightarrow> int \<Rightarrow> int list \<Rightarrow> pyval list \<Rightarrow> error + (int list \<times> pyval list)" where
  "extend_holidays us_holidays yr years holidays =
     (if yr \<notin> set years then
        (case us_market_holidays us_holidays (YearInt yr) of
           Inl e \<Rightarrow> Inl e
         | Inr hs \<Rightarrow> Inr (years @ [yr], holidays @ hs))
      else Inr (years, holidays))"

text \<open>
  The \<^verbatim>\<open>while\<close> loop, with its five variables as arguments. Each \<^verbatim>\<open>continue\<close> and the
  end of the body are the recursive calls.
\<close>

function next_days_loop ::
  "holiday_source \<Rightarrow> int \<Rightarrow> datetime \<Rightarrow> int \<Rightarrow> datetime list \<Rightarrow> int list \<Rightarrow> pyval list
     \<Rightarrow> error + datetime list" where
  "next_days_loop us_holidays n_next_days last_stock_day n_days l_pred_days years holidays =
     (if n_days < n_next_days then
        (case add_one_day last_stock_day of
           Inl e \<Rightarrow> Inl e
         | Inr last_stock_day' \<Rightarrow>
             (case extend_holidays us_holidays (year last_stock_day') years holidays of
                Inl e \<Rightarrow> Inl e
              | Inr (years', holidays') \<Rightarrow>
                  if weekday (date_of last_stock_day') > 4 then
                    next_days_loop us_holidays n_next_days last_stock_day' n_days l_pred_days
                      years' holidays'
                  else if py_in (PyStr (strftime_Ymd last_stock_day')) holidays' then
                    next_days_loop us_holidays n_next_days last_stock_day' n_days l_pred_days
                      years' holidays'
                  else
                    next_days_loop us_holidays n_next_days last_stock_day' (n_days + 1)
                      (l_pred_days @ [last_stock_day']) years' holidays'))
      else Inr l_pred_days)"
  by pat_completeness auto
termination
  by (relation "inv_image {(x, y). x < y} (\<lambda>(u, n, d, k, l, ys, hs). next_day_key d)")
     (auto simp: wellorder_class.wf dest: add_one_day_key)

declare next_days_loop.simps [simp del]

definition get_next_stock_market_days ::
  "holiday_source \<Rightarrow> datetime \<Rightarrow> int \<Rightarrow> error + datetime list" where
  "get_next_stock_market_days us_holidays last_stock_day n_next_days =
     next_days_loop us_holidays n_next_days last_stock_day 0 [] [] []"

section \<open>get_last_time_market_was_open\<close>

definition prev_day_key :: "datetime \<Rightarrow> nat \<times> nat \<times> nat" where
  "prev_day_key d = (nat (year d), nat (month d), nat (day d))"

lemma sub_one_day_key:
  "sub_one_day d = Inr d' \<Longrightarrow> prev_day_key d' < prev_day_key d"
  by (auto simp: sub_one_day_def prev_day_key_def split: if_splits)

lemma prev_day_key_replace [simp]:
  "prev_day_key (d\<lparr>hour := h, minute := m, second := s\<rparr>) = prev_day_key d"
  by (simp add: prev_day_key_def)

text \<open>
  The two \<^verbatim>\<open>if\<close> statements run one after the other, and the second one tests the value
  the first one assigned; \<^verbatim>\<open>replace\<close> sets hour, minute and second and leaves the
  microsecond as it is.
\<close>

function get_last_time_market_was_open :: "holiday_lookup \<Rightarrow> datetime \<Rightarrow> error + datetime" where
  "get_last_time_market_was_open us_holidays dt =
     (case (if weekday (date_of dt) > 4 then
              (case sub_one_day dt of
                 Inl e \<Rightarrow> Inl e
               | Inr dt' \<Rightarrow> get_last_time_market_was_open us_holidays dt')
            else Inr dt) of
        Inl e \<Rightarrow> Inl e
      | Inr dt1 \<Rightarrow>
          (case (if us_holidays (strftime_Ymd dt1) then
                   (case sub_one_day dt1 of
                      Inl e \<Rightarrow> Inl e
                    | Inr dt' \<Rightarrow> get_last_time_market_was_open us_holidays dt')
                 else Inr dt1) of
             Inl e \<Rightarrow> Inl e
           | Inr dt2 \<Rightarrow> Inr (dt2\<lparr>hour := 21, minute := 0, second := 0\<rparr>)))"
  by pat_completeness auto

text \<open>
  The second call is on a value the first call returned, so termination needs a fact
  about the function on its domain: a result is never later than the argument.
\<close>

lemma get_last_time_market_was_open_key:
  "get_last_time_market_was_open_dom (H, dt) \<Longrightarrow>
   get_last_time_market_was_open H dt = Inr r \<Longrightarrow> prev_day_key r \<le> prev_day_key dt"
proof (induction H dt arbitrary: r rule: get_last_time_market_was_open.pinduct)
  case (1 H dt)
  let ?s1 = "if 4 < weekday (date_of dt)
             then case sub_one_day dt of Inl x \<Rightarrow> Inl x
                  | Inr x \<Rightarrow> get_last_time_market_was_open H x
             else Inr dt"
  from "1.prems" "1.hyps" obtain dt1 dt2 where
    s1: "?s1 = Inr dt1" and
    s2: "(if H (strftime_Ymd dt1)
          then case sub_one_day dt1 of Inl x \<Rightarrow> Inl x
               | Inr x \<Rightarrow> get_last_time_market_was_open H x
          else Inr dt1) = Inr dt2" and
    r: "r = dt2\<lparr>hour := 21, minute := 0, second := 0\<rparr>"
    by (simp add: get_last_time_market_was_open.psimps split: sum.splits)
  have k1: "prev_day_key dt1 \<le> prev_day_key dt"
  proof (cases "4 < weekday (date_of dt)")
    case True
    with s1 obtain b where b: "sub_one_day dt = Inr b"
      and g: "get_last_time_market_was_open H b = Inr dt1"
      by (auto split: sum.splits)
    from "1.IH"(1) [OF True b g] sub_one_day_key [OF b] show ?thesis by simp
  next
    case False
    with s1 show ?thesis by simp
  qed
  have k2: "prev_day_key dt2 \<le> prev_day_key dt1"
  proof (cases "H (strftime_Ymd dt1)")
    case True
    with s2 obtain b where b: "sub_one_day dt1 = Inr b"
      and g: "get_last_time_market_was_open H b = Inr dt2"
      by (auto split: sum.splits)
    from "1.IH"(2) [OF s1 True b g] sub_one_day_key [OF b] show ?thesis by simp
  next
    case False
    with s2 show ?thesis by simp
  qed
  from k1 k2 r show ?case by simp
qed

termination get_last_time_market_was_open
proof (relation "inv_image {(x, y). x < y} (\<lambda>(u, d). prev_day_key d)", goal_cases)
  case 1
  show ?case by (simp add: wellorder_class.wf)
next
  case (2 H dt b)
  then show ?case by (simp add: sub_one_day_key)
next
  case (3 H dt b ba)
  have "prev_day_key b \<le> prev_day_key dt"
  proof (cases "4 < weekday (date_of dt)")
    case True
    with 3(1) obtain c where c: "sub_one_day dt = Inr c"
      and g: "get_last_time_market_was_open H c = Inr b"
      by (auto split: sum.splits)
    from 3 True c have "get_last_time_market_was_open_dom (H, c)" by simp
    from get_last_time_market_was_open_key [OF this g] sub_one_day_key [OF c]
    show ?thesis by simp
  next
    case False
    with 3(1) show ?thesis by simp
  qed
  with sub_one_day_key [OF 3(3)] show ?case by simp
qed

declare get_last_time_market_was_open.simps [simp del]

text \<open>The day \<open>k\<close> steps of 24 hours before a date.\<close>

fun days_before :: "nat \<Rightarrow> date \<Rightarrow> error + date" where
  "days_before 0 d = Inr d"
| "days_before (Suc k) d =
     (case sub_one_day d of Inl e \<Rightarrow> Inl e | Inr p \<Rightarrow> days_before k p)"

text \<open>The days the function steps over: weekends and the days of the calendar.\<close>

definition skipped :: "holiday_lookup \<Rightarrow> 'a date_scheme \<Rightarrow> bool" where
  "skipped us_holidays d = (weekday d > 4 \<or> us_holidays (strftime_Ymd d))"

section \<open>A sample of the external calendar\<close>

text \<open>
  An instance of the external source for the concrete evaluations below: the United
  States public holidays of 2021, and those around New Year of 2022 and 2023.
\<close>

definition sample_holiday_table :: "(date \<times> string) list" where
  "sample_holiday_table =
     [(mk_date 2021 1 1, ''New Year's Day''),
      (mk_date 2021 1 18, ''Martin Luther King Jr. Day''),
      (mk_date 2021 2 15, ''Washington's Birthday''),
      (mk_date 2021 5 31, ''Memorial Day''),
      (mk_date 2021 7 4, ''Independence Day''),
      (mk_date 2021 7 5, ''Independence Day (Observed)''),
      (mk_date 2021 9 6, ''Labor Day''),
      (mk_date 2021 10 11, ''Columbus Day''),
      (mk_date 2021 11 11, ''Veterans Day''),
      (mk_date 2021 11 25, ''Thanksgiving''),
      (mk_date 2021 12 24, ''Christmas Day (Observed)''),
      (mk_date 2021 12 25, ''Christmas Day''),
      (mk_date 2021 12 31, ''New Year's Day (Observed)''),
      (mk_date 2022 1 1, ''New Year's Day''),
      (mk_date 2023 1 1, ''New Year's Day''),
      (mk_date 2023 1 2, ''New Year's Day (Observed)'')]"

definition sample_us_holidays :: holiday_source where
  "sample_us_holidays years = filter (\<lambda>(d, name). year d \<in> set years) sample_holiday_table"

text \<open>The keys the library's membership test accepts for that calendar.\<close>

definition sample_holiday_lookup :: holiday_lookup where
  "sample_holiday_lookup key =
     (key \<in> set [''2021-01-01'', ''2021-01-18'', ''2021-02-15'', ''2021-05-31'', ''2021-07-04'',
                 ''2021-07-05'', ''2021-09-06'', ''2021-10-11'', ''2021-11-11'', ''2021-11-25'',
                 ''2021-12-24'', ''2021-12-25'', ''2021-12-31'', ''2022-01-01'', ''2023-01-01'',
                 ''2023-01-02''])"

section \<open>Calendar facts\<close>














section \<open>Facts about formatting and parsing\<close>

lemma digit_val_digit_char:
  assumes "k < 10"
  shows "digit_val (digit_char k) = Some (int k)"
proof -
  have "\<forall>j\<in>set [0, 1, 2, 3, 4, 5, 6, 7, 8, 9 :: nat]. digit_val (digit_char j) = Some (int j)"
    by (simp add: digit_val_def digit_table_def digit_char_def)
  moreover from assms have "k \<in> set [0, 1, 2, 3, 4, 5, 6, 7, 8, 9 :: nat]"
    by simp arith
  ultimately show ?thesis by blast
qed

lemma str_nat_step: "\<not> n < 10 \<Longrightarrow> str_nat n = str_nat (n div 10) @ [digit_char (n mod 10)]"
  by (subst str_nat.simps) simp

lemma str_nat_base: "n < 10 \<Longrightarrow> str_nat n = [digit_char n]"
  by (subst str_nat.simps) simp

lemma str_nat_4:
  assumes "1000 \<le> n" and "n \<le> 9999"
  shows "str_nat n = [digit_char (n div 1000), digit_char (n div 100 mod 10),
                      digit_char (n div 10 mod 10), digit_char (n mod 10)]"
proof -
  have e: "n div 10 div 10 = n div 100" "n div 100 div 10 = n div 1000"
    by (simp_all add: div_mult2_eq [symmetric])
  have g: "\<not> n < 10" "\<not> n div 10 < 10" "\<not> n div 100 < 10" "n div 1000 < 10"
    using assms by arith+
  have 1: "str_nat n = str_nat (n div 10) @ [digit_char (n mod 10)]"
    by (rule str_nat_step [OF g(1)])
  have 2: "str_nat (n div 10) = str_nat (n div 100) @ [digit_char (n div 10 mod 10)]"
    using str_nat_step [OF g(2)] by (simp only: e)
  have 3: "str_nat (n div 100) = str_nat (n div 1000) @ [digit_char (n div 100 mod 10)]"
    using str_nat_step [OF g(3)] by (simp only: e)
  have 4: "str_nat (n div 1000) = [digit_char (n div 1000)]"
    by (rule str_nat_base [OF g(4)])
  show ?thesis by (simp only: 1 2 3 4 append.simps)
qed

lemma four_digits:
  assumes "n \<le> 9999"
  shows "1000 * int (n div 1000) + 100 * int (n div 100 mod 10) + 10 * int (n div 10 mod 10)
           + int (n mod 10) = int n"
proof -
  have a: "n = 10 * (n div 10) + n mod 10" by simp
  have b: "n div 10 = 10 * (n div 100) + n div 10 mod 10"
    using div_mult_mod_eq [of "n div 10" 10] by (simp add: div_mult2_eq [symmetric])
  have c: "n div 100 = 10 * (n div 1000) + n div 100 mod 10"
    using div_mult_mod_eq [of "n div 100" 10] by (simp add: div_mult2_eq [symmetric])
  define p where "p = n div 1000"
  define q where "q = n div 100 mod 10"
  define r where "r = n div 10 mod 10"
  define s where "s = n mod 10"
  define u where "u = n div 10"
  define v where "v = n div 100"
  have "n = 10 * u + s" "u = 10 * v + r" "v = 10 * p + q"
    using a b c by (simp_all only: p_def q_def r_def s_def u_def v_def)
  then have "int n = 1000 * int p + 100 * int q + 10 * int r + int s" by simp
  then show ?thesis by (simp only: p_def q_def r_def s_def)
qed

lemma strptime_new_year:
  assumes "1000 \<le> y" and "y \<le> 9999"
  shows "strptime_Ymd (str_int y @ ''-01-01'') = Inr (mk_datetime y 1 1 0 0 0 0)"
proof -
  define n where "n = nat y"
  from assms have n: "1000 \<le> n" "n \<le> 9999" and y: "y = int n" by (simp_all add: n_def)
  have s: "str_int y = [digit_char (n div 1000), digit_char (n div 100 mod 10),
                      digit_char (n div 10 mod 10), digit_char (n mod 10)]"
    using assms str_nat_4 [OF n] by (simp add: str_int_def n_def)
  have d: "n div 1000 < 10" "n div 100 mod 10 < 10" "n div 10 mod 10 < 10" "n mod 10 < 10"
    using n by simp_all
  have v: "digits_val (str_int y) 0 = Some y"
    unfolding s using four_digits [OF n(2)]
    by (simp add: digit_val_digit_char d y)
  have t: "take 4 (str_int y @ ''-01-01'') = str_int y" by (simp add: s)
  have l: "length (str_int y @ ''-01-01'') = 10" by (simp add: s)
  have c: "(str_int y @ ''-01-01'') ! 4 = CHR ''-''" "(str_int y @ ''-01-01'') ! 7 = CHR ''-''"
    by (simp_all add: s)
  have m: "take 2 (drop 5 (str_int y @ ''-01-01'')) = ''01''" "drop 8 (str_int y @ ''-01-01'') = ''01''"
    by (simp_all add: s)
  show ?thesis
    unfolding strptime_Ymd_def l c t m v
    using assms by (simp add: digit_val_def digit_table_def days_in_month_def mk_datetime_def)
qed

section \<open>Facts about us_market_holidays\<close>

lemma good_fridays_dom: "(good_fridays y \<noteq> None) = (2010 \<le> y \<and> y \<le> 2030)"
proof (cases "2010 \<le> y \<and> y \<le> 2030")
  case True
  then have "y = 2010 \<or> y = 2011 \<or> y = 2012 \<or> y = 2013 \<or> y = 2014 \<or> y = 2015 \<or> y = 2016 \<or>
      y = 2017 \<or> y = 2018 \<or> y = 2019 \<or> y = 2020 \<or> y = 2021 \<or> y = 2022 \<or> y = 2023 \<or>
      y = 2024 \<or> y = 2025 \<or> y = 2026 \<or> y = 2027 \<or> y = 2028 \<or> y = 2029 \<or> y = 2030"
    by arith
  then show ?thesis
    by (elim disjE) (simp_all add: good_fridays_def good_fridays_table_def)
next
  case False
  then show ?thesis
    by (auto simp: good_fridays_def good_fridays_table_def)
qed

text \<open>Every entry of the table parses, to a Friday in March or April of its year.\<close>

lemma good_fridays_parse:
  assumes "good_fridays y = Some s"
  shows "\<exists>d. strptime_Ymd s = Inr d \<and> year d = y \<and> (month d = 3 \<or> month d = 4) \<and>
               weekday (date_of d) = 4"
proof -
  from assms have "(y, s) \<in> set good_fridays_table"
    unfolding good_fridays_def by (rule map_of_SomeD)
  then show ?thesis
    unfolding good_fridays_table_def
    by (auto simp: strptime_Ymd_def digit_val_def digit_table_def days_in_month_def is_leap_def weekday_def
          toordinal_def date_of_def days_before_year_def days_before_month_def
          days_before_month_table_def)
qed

lemma good_friday_entry_in_range:
  assumes "2010 \<le> y" and "y \<le> 2030"
  shows "\<exists>s d. good_fridays y = Some s \<and> strptime_Ymd s = Inr d \<and>
           good_friday_entry y = Inr (PyDate (date_of d)) \<and> year d = y \<and>
           (month d = 3 \<or> month d = 4) \<and> weekday (date_of d) = 4"
proof -
  from assms good_fridays_dom [of y] obtain s where s: "good_fridays y = Some s" by auto
  from good_fridays_parse [OF s] obtain d where d: "strptime_Ymd s = Inr d" "year d = y"
    "month d = 3 \<or> month d = 4" "weekday (date_of d) = 4" by blast
  with s show ?thesis by (simp add: good_friday_entry_def)
qed

lemma good_friday_entry_out_of_range:
  "\<not> (2010 \<le> y \<and> y \<le> 2030) \<Longrightarrow> good_friday_entry y = Inl KeyError"
  using good_fridays_dom [of y] by (cases "good_fridays y") (auto simp: good_friday_entry_def)

lemma good_friday_loop_Cons:
  "good_friday_loop (y # ys) vh =
     (case good_friday_entry y of Inl e \<Rightarrow> Inl e | Inr v \<Rightarrow> good_friday_loop ys (vh @ [v]))"
  by (simp add: good_friday_entry_def split: option.splits sum.splits)

lemma good_friday_loop_ok:
  "\<forall>y\<in>set ys. 2010 \<le> y \<and> y \<le> 2030 \<Longrightarrow>
   good_friday_loop ys vh = Inr (vh @ map (\<lambda>y. projr (good_friday_entry y)) ys)"
proof (induction ys arbitrary: vh)
  case Nil
  show ?case by simp
next
  case (Cons y ys)
  from Cons.prems good_friday_entry_in_range [of y] obtain v where "good_friday_entry y = Inr v"
    by auto
  with Cons show ?case by (simp only: good_friday_loop_Cons) simp
qed

lemma good_friday_loop_KeyError:
  "\<exists>y\<in>set ys. \<not> (2010 \<le> y \<and> y \<le> 2030) \<Longrightarrow> good_friday_loop ys vh = Inl KeyError"
proof (induction ys arbitrary: vh)
  case Nil
  then show ?case by simp
next
  case (Cons y ys)
  show ?case
  proof (cases "2010 \<le> y \<and> y \<le> 2030")
    case True
    with good_friday_entry_in_range [of y] obtain v where v: "good_friday_entry y = Inr v"
      by auto
    from True Cons.prems have "\<exists>y\<in>set ys. \<not> (2010 \<le> y \<and> y \<le> 2030)" by auto
    from Cons.IH [OF this] v show ?thesis by (simp only: good_friday_loop_Cons) simp
  next
    case False
    from good_friday_entry_out_of_range [OF this] show ?thesis
      by (simp only: good_friday_loop_Cons) simp
  qed
qed

lemma weekday_date_of [simp]: "weekday (date_of d) = weekday d"
  by (simp add: weekday_def toordinal_def date_of_def)

lemma new_year_loop_Cons:
  assumes "1000 \<le> y" and "y \<le> 9999"
  shows "new_year_loop (y # ys) vh = new_year_loop ys (vh @ new_year_dates y)"
proof -
  have w: "weekday (mk_datetime y 1 1 0 0 0 0) = weekday (mk_date y 1 1)"
    by (simp add: weekday_def toordinal_def mk_datetime_def mk_date_def)
  have d: "date_of (mk_datetime y 1 1 0 0 0 0) = mk_date y 1 1"
    by (simp add: date_of_def mk_datetime_def mk_date_def)
  have a: "add_one_day (mk_date y 1 1) = Inr (mk_date y 1 2)"
    by (simp add: add_one_day_def mk_date_def days_in_month_def)
  show ?thesis
    by (simp add: strptime_new_year [OF assms] w d a new_year_dates_def Let_def
          del: weekday_date_of)
qed

lemma new_year_loop_ok:
  "\<forall>y\<in>set ys. 1000 \<le> y \<and> y \<le> 9999 \<Longrightarrow>
   new_year_loop ys vh = Inr (vh @ concat (map new_year_dates ys))"
proof (induction ys arbitrary: vh)
  case Nil
  show ?case by simp
next
  case (Cons y ys)
  from Cons.prems have y: "1000 \<le> y" "y \<le> 9999"
    and r: "\<forall>y\<in>set ys. 1000 \<le> y \<and> y \<le> 9999" by simp_all
  show ?case
    by (simp only: new_year_loop_Cons [OF y] Cons.IH [OF r]) simp
qed

lemma us_market_holidays_ok:
  assumes "\<forall>y\<in>set (normalize_years years). 2010 \<le> y \<and> y \<le> 2030"
  shows "us_market_holidays US years =
     Inr (filter_market_holidays (US (normalize_years years)) @
          concat (map new_year_dates (normalize_years years)) @
          map (\<lambda>y. projr (good_friday_entry y)) (normalize_years years))"
proof -
  from assms have "\<forall>y\<in>set (normalize_years years). 1000 \<le> y \<and> y \<le> 9999" by auto
  from new_year_loop_ok [OF this] good_friday_loop_ok [OF assms]
  show ?thesis by (simp add: us_market_holidays_def Let_def)
qed

lemma us_market_holidays_KeyError:
  assumes "\<forall>y\<in>set (normalize_years years). 1000 \<le> y \<and> y \<le> 9999"
    and "\<exists>y\<in>set (normalize_years years). \<not> (2010 \<le> y \<and> y \<le> 2030)"
  shows "us_market_holidays US years = Inl KeyError"
  using new_year_loop_ok [OF assms(1)] good_friday_loop_KeyError [OF assms(2)]
  by (simp add: us_market_holidays_def Let_def)

lemma new_year_dates_are_dates:
  "v \<in> set (new_year_dates z) \<Longrightarrow> v = PyDate (mk_date z 1 1) \<and> weekday (mk_date z 1 1) \<noteq> 5 \<or>
     v = PyDate (mk_date z 1 2)"
  by (auto simp: new_year_dates_def split: if_splits)

lemma mk_date_eq [simp]: "(mk_date y m d = mk_date y' m' d') = (y = y' \<and> m = m' \<and> d = d')"
  by (simp add: mk_date_def)

lemma weekday_2022: "weekday (mk_date 2022 1 1) = 5"
  by (simp add: weekday_def toordinal_def mk_date_def days_before_year_def
        days_before_month_def days_before_month_table_def)

lemma weekday_2023: "weekday (mk_date 2023 1 1) = 6"
  by (simp add: weekday_def toordinal_def mk_date_def days_before_year_def
        days_before_month_def days_before_month_table_def)

lemma sample_filter_2022_2023:
  "filter_market_holidays (sample_us_holidays [2022, 2023]) = []"
  by (simp add: filter_market_holidays_def sample_us_holidays_def sample_holiday_table_def
        mk_date_def market_and_observed_holidays_def market_holidays_def)

lemma str_nat_999: "str_nat 999 = ''999''"
  by (simp add: str_nat_step str_nat_base digit_char_def)

lemma projr_good_friday_entry_is_date:
  assumes "2010 \<le> y" and "y \<le> 2030"
  shows "\<exists>d. projr (good_friday_entry y) = PyDate d"
  using good_friday_entry_in_range [OF assms] by auto

lemma new_year_dates_is_date: "v \<in> set (new_year_dates y) \<Longrightarrow> \<exists>d. v = PyDate d"
  by (auto simp: new_year_dates_def split: if_splits)

text \<open>Every element of a returned holiday list is a date object, never a string.\<close>

lemma us_market_holidays_dates:
  assumes "\<forall>y\<in>set (normalize_years years). 2010 \<le> y \<and> y \<le> 2030"
  shows "\<exists>hs. us_market_holidays US years = Inr hs \<and> (\<forall>v\<in>set hs. \<exists>d. v = PyDate d)"
proof -
  let ?ys = "normalize_years years"
  have "\<exists>d. v = PyDate d" if "v \<in> set (map (\<lambda>y. projr (good_friday_entry y)) ?ys)" for v
  proof -
    from that obtain z where z: "z \<in> set ?ys" "v = projr (good_friday_entry z)" by auto
    from z(1) assms have "2010 \<le> z" "z \<le> 2030" by auto
    from projr_good_friday_entry_is_date [OF this] z(2) show ?thesis by simp
  qed
  moreover have "\<exists>d. v = PyDate d" if "v \<in> set (concat (map new_year_dates ?ys))" for v
    using that new_year_dates_is_date by auto
  moreover have "\<exists>d. v = PyDate d" if "v \<in> set (filter_market_holidays (US ?ys))" for v
    using that by (auto simp: filter_market_holidays_def)
  ultimately show ?thesis
    unfolding us_market_holidays_ok [OF assms] by auto
qed

text \<open>The membership test of a string in a list of date objects is false.\<close>

lemma py_in_str_dates: "\<forall>v\<in>set hs. \<exists>d. v = PyDate d \<Longrightarrow> \<not> py_in (PyStr s) hs"
  by (auto simp: py_in_def)

lemma b_is_stock_market_open_weekday:
  assumes "weekday (date_of now) \<le> 4" and "2010 \<le> year now" and "year now \<le> 2030"
  shows "b_is_stock_market_open US now =
           Inr (\<not> time_of now < Time 9 30 0 \<and> \<not> time_of now > Time 16 0 0)"
proof -
  from assms have "\<forall>y\<in>set (normalize_years (YearInt (year now))). 2010 \<le> y \<and> y \<le> 2030"
    by (simp add: normalize_years_def)
  from us_market_holidays_dates [OF this, of US] obtain hs where
    hs: "us_market_holidays US (YearInt (year now)) = Inr hs" "\<forall>v\<in>set hs. \<exists>d. v = PyDate d"
    by blast
  from py_in_str_dates [OF hs(2)] hs(1) assms(1) show ?thesis
    by (simp add: b_is_stock_market_open_def)
qed

lemma b_is_stock_market_open_weekend:
  "weekday (date_of now) > 4 \<Longrightarrow> b_is_stock_market_open US now = Inr False"
  by (simp add: b_is_stock_market_open_def)

lemma sample_2021:
  "us_market_holidays sample_us_holidays (YearInt 2021) =
     Inr [PyDate (mk_date 2021 1 18), PyDate (mk_date 2021 2 15), PyDate (mk_date 2021 5 31),
          PyDate (mk_date 2021 7 4), PyDate (mk_date 2021 7 5), PyDate (mk_date 2021 9 6),
          PyDate (mk_date 2021 11 25), PyDate (mk_date 2021 12 24), PyDate (mk_date 2021 12 25),
          PyDate (mk_date 2021 1 1), PyDate (mk_date 2021 4 2)]"
proof -
  have f: "filter_market_holidays (sample_us_holidays [2021]) =
     [PyDate (mk_date 2021 1 18), PyDate (mk_date 2021 2 15), PyDate (mk_date 2021 5 31),
      PyDate (mk_date 2021 7 4), PyDate (mk_date 2021 7 5), PyDate (mk_date 2021 9 6),
      PyDate (mk_date 2021 11 25), PyDate (mk_date 2021 12 24), PyDate (mk_date 2021 12 25)]"
    by (simp add: filter_market_holidays_def sample_us_holidays_def sample_holiday_table_def
          mk_date_def market_and_observed_holidays_def market_holidays_def)
  have n: "new_year_dates 2021 = [PyDate (mk_date 2021 1 1)]"
    by (simp add: new_year_dates_def weekday_def toordinal_def mk_date_def days_before_year_def
          days_before_month_def days_before_month_table_def)
  have g: "good_friday_entry 2021 = Inr (PyDate (mk_date 2021 4 2))"
    by (simp add: good_friday_entry_def good_fridays_def good_fridays_table_def
          strptime_Ymd_def digit_val_def digit_table_def days_in_month_def date_of_def mk_date_def)
  have "\<forall>y\<in>set (normalize_years (YearInt 2021)). 2010 \<le> y \<and> y \<le> 2030"
    by (simp add: normalize_years_def)
  from us_market_holidays_ok [OF this, of sample_us_holidays] show ?thesis
    by (simp add: normalize_years_def f n g)
qed

lemma weekday_mk_datetime [simp]:
  "weekday (mk_datetime y m d hh mm ss us) = weekday (mk_date y m d)"
  by (simp add: weekday_def toordinal_def mk_datetime_def mk_date_def)

lemma date_of_mk_datetime [simp]: "date_of (mk_datetime y m d hh mm ss us) = mk_date y m d"
  by (simp add: date_of_def mk_datetime_def mk_date_def)

lemma year_mk_datetime [simp]: "year (mk_datetime y m d hh mm ss us) = y"
  by (simp add: mk_datetime_def)

lemma time_of_mk_datetime [simp]: "time_of (mk_datetime y m d hh mm ss us) = (hh, mm, ss, us)"
  by (simp add: time_of_def mk_datetime_def)

lemma weekday_numeral:
  "weekday (mk_date (numeral y) (numeral m) (numeral d)) =
     (days_before_year (numeral y) + days_before_month (numeral y) (numeral m) + numeral d + 6) mod 7"
  "weekday (mk_date (numeral y) 1 (numeral d)) =
     (days_before_year (numeral y) + days_before_month (numeral y) 1 + numeral d + 6) mod 7"
  "weekday (mk_date (numeral y) (numeral m) 1) =
     (days_before_year (numeral y) + days_before_month (numeral y) (numeral m) + 1 + 6) mod 7"
  "weekday (mk_date (numeral y) 1 1) =
     (days_before_year (numeral y) + days_before_month (numeral y) 1 + 1 + 6) mod 7"
  by (simp_all add: weekday_def toordinal_def mk_date_def)

lemmas calendar_eval = weekday_numeral days_before_year_def days_before_month_def
  days_before_month_table_def is_leap_def days_in_month_def














lemma extend_holidays_sample_first:
  "extend_holidays sample_us_holidays 2021 [] [] =
     Inr ([2021],
          [PyDate (mk_date 2021 1 18), PyDate (mk_date 2021 2 15), PyDate (mk_date 2021 5 31),
           PyDate (mk_date 2021 7 4), PyDate (mk_date 2021 7 5), PyDate (mk_date 2021 9 6),
           PyDate (mk_date 2021 11 25), PyDate (mk_date 2021 12 24), PyDate (mk_date 2021 12 25),
           PyDate (mk_date 2021 1 1), PyDate (mk_date 2021 4 2)])"
  by (simp add: extend_holidays_def sample_2021)

lemma extend_holidays_cached: "y \<in> set ys \<Longrightarrow> extend_holidays US y ys hs = Inr (ys, hs)"
  by (simp add: extend_holidays_def)

lemma add_one_day_mk_datetime:
  "add_one_day (mk_datetime y m d hh mm ss us) =
     (if d < days_in_month y m then Inr (mk_datetime y m (d + 1) hh mm ss us)
      else if m < 12 then Inr (mk_datetime y (m + 1) 1 hh mm ss us)
      else if y < 9999 then Inr (mk_datetime (y + 1) 1 1 hh mm ss us)
      else Inl OverflowError)"
  by (simp add: add_one_day_def mk_datetime_def)



lemma strftime_Ymd_date_of [simp]: "strftime_Ymd (date_of d) = strftime_Ymd d"
  by (simp add: strftime_Ymd_def date_of_def)

lemma strftime_Ymd_replace [simp]:
  "strftime_Ymd (d\<lparr>hour := h, minute := m, second := s\<rparr>) = strftime_Ymd d"
  by (simp add: strftime_Ymd_def)

lemma weekday_replace [simp]:
  "weekday (d\<lparr>hour := h, minute := m, second := s\<rparr>) = weekday d"
  by (simp add: weekday_def toordinal_def)

lemma date_of_replace [simp]:
  "date_of (d\<lparr>hour := h, minute := m, second := s\<rparr>) = date_of d"
  by (simp add: date_of_def)

lemma skipped_date_of [simp]: "skipped H (date_of d) = skipped H d"
  by (simp add: skipped_def)

lemma sub_one_day_date_of:
  "sub_one_day (date_of d) = Inr p \<Longrightarrow>
   \<exists>b. sub_one_day d = Inr b \<and> date_of b = p \<and> microsecond b = microsecond d"
  by (auto simp: sub_one_day_def date_of_def split: if_splits)

lemma get_last_weekend:
  assumes "weekday (date_of dt) > 4" and "sub_one_day dt = Inr b"
    and "get_last_time_market_was_open H b = Inr r" and "\<not> H (strftime_Ymd r)"
  shows "get_last_time_market_was_open H dt = Inr (r\<lparr>hour := 21, minute := 0, second := 0\<rparr>)"
  using assms by (subst get_last_time_market_was_open.simps) (simp del: weekday_date_of)

lemma get_last_holiday:
  assumes "\<not> weekday (date_of dt) > 4" and "H (strftime_Ymd dt)" and "sub_one_day dt = Inr b"
    and "get_last_time_market_was_open H b = Inr r"
  shows "get_last_time_market_was_open H dt = Inr (r\<lparr>hour := 21, minute := 0, second := 0\<rparr>)"
  using assms by (subst get_last_time_market_was_open.simps) (simp del: weekday_date_of)

lemma get_last_open:
  assumes "\<not> weekday (date_of dt) > 4" and "\<not> H (strftime_Ymd dt)"
  shows "get_last_time_market_was_open H dt = Inr (dt\<lparr>hour := 21, minute := 0, second := 0\<rparr>)"
  using assms by (subst get_last_time_market_was_open.simps) (simp del: weekday_date_of)

text \<open>
  Stepping back from a skipped day: the day that is not skipped lies at least one step
  back, and the step exists for the datetime as for its date.
\<close>

lemma skipped_step_back:
  assumes "skipped H dt" and "days_before k (date_of dt) = Inr q" and "\<not> skipped H q"
  shows "\<exists>k' b. k = Suc k' \<and> sub_one_day dt = Inr b \<and> days_before k' (date_of b) = Inr q \<and>
           microsecond b = microsecond dt \<and> sub_one_day (date_of dt) = Inr (date_of b)"
proof (cases k)
  case 0
  with assms skipped_date_of [of H dt] show ?thesis by auto
next
  case (Suc k')
  with assms(2) obtain p where p: "sub_one_day (date_of dt) = Inr p" "days_before k' p = Inr q"
    by (auto split: sum.splits)
  from sub_one_day_date_of [OF p(1)] obtain b where
    "sub_one_day dt = Inr b" "date_of b = p" "microsecond b = microsecond dt" by blast
  with p Suc show ?thesis by simp
qed

lemma get_last_result:
  "\<exists>k q. days_before k (date_of dt) = Inr q \<and> \<not> skipped H q \<Longrightarrow>
   \<exists>r j. get_last_time_market_was_open H dt = Inr r \<and>
      hour r = 21 \<and> minute r = 0 \<and> second r = 0 \<and> microsecond r = microsecond dt \<and>
      \<not> skipped H r \<and> days_before j (date_of dt) = Inr (date_of r) \<and>
      (\<forall>i<j. \<forall>q. days_before i (date_of dt) = Inr q \<longrightarrow> skipped H q)"
proof (induction H dt rule: get_last_time_market_was_open.induct)
  case (1 H dt)
  show ?case
  proof (cases "skipped H dt")
    case False
    then have "\<not> weekday (date_of dt) > 4" "\<not> H (strftime_Ymd dt)"
      by (simp_all add: skipped_def)
    from get_last_open [where H = H and dt = dt, OF this] False show ?thesis
      by (intro exI [of _ "dt\<lparr>hour := 21, minute := 0, second := 0\<rparr>"] exI [of _ 0])
         (simp add: skipped_def)
  next
    case True
    from "1.prems" obtain k q where kq: "days_before k (date_of dt) = Inr q" "\<not> skipped H q"
      by blast
    from skipped_step_back [OF True kq] obtain k' b where
      b: "sub_one_day dt = Inr b" "days_before k' (date_of b) = Inr q"
         "microsecond b = microsecond dt" "sub_one_day (date_of dt) = Inr (date_of b)"
      by blast
    from b(2) kq(2) have ex: "\<exists>k q. days_before k (date_of b) = Inr q \<and> \<not> skipped H q"
      by blast
    have "\<exists>r j. get_last_time_market_was_open H b = Inr r \<and>
      hour r = 21 \<and> minute r = 0 \<and> second r = 0 \<and> microsecond r = microsecond b \<and>
      \<not> skipped H r \<and> days_before j (date_of b) = Inr (date_of r) \<and>
      (\<forall>i<j. \<forall>q. days_before i (date_of b) = Inr q \<longrightarrow> skipped H q)"
    proof (cases "weekday (date_of dt) > 4")
      case True
      from "1.IH"(1) [OF True b(1) ex] show ?thesis .
    next
      case False
      with True have h: "H (strftime_Ymd dt)" by (simp add: skipped_def)
      from False have "(if 4 < weekday (date_of dt)
             then case sub_one_day dt of Inl e \<Rightarrow> Inl e
                  | Inr x \<Rightarrow> get_last_time_market_was_open H x
             else Inr dt) = Inr dt" by (simp del: weekday_date_of)
      from "1.IH"(2) [OF this h b(1) ex] show ?thesis .
    qed
    then obtain r j where r: "get_last_time_market_was_open H b = Inr r"
      "hour r = 21" "minute r = 0" "second r = 0" "microsecond r = microsecond b"
      "\<not> skipped H r" "days_before j (date_of b) = Inr (date_of r)"
      "\<forall>i<j. \<forall>q. days_before i (date_of b) = Inr q \<longrightarrow> skipped H q"
      by blast
    from r(6) have nh: "\<not> H (strftime_Ymd r)" by (simp add: skipped_def)
    have res: "get_last_time_market_was_open H dt = Inr (r\<lparr>hour := 21, minute := 0, second := 0\<rparr>)"
    proof (cases "weekday (date_of dt) > 4")
      case True
      from get_last_weekend [where H = H and dt = dt, OF True b(1) r(1) nh] show ?thesis .
    next
      case False
      with True have "H (strftime_Ymd dt)" by (simp add: skipped_def)
      from get_last_holiday [where H = H and dt = dt, OF False this b(1) r(1)] show ?thesis .
    qed
    have reach: "days_before (Suc j) (date_of dt) = Inr (date_of r)"
      using b(4) r(7) by simp
    have before: "\<forall>i<Suc j. \<forall>q. days_before i (date_of dt) = Inr q \<longrightarrow> skipped H q"
    proof (intro allI impI)
      fix i q
      assume i: "i < Suc j" and q: "days_before i (date_of dt) = Inr q"
      show "skipped H q"
      proof (cases i)
        case 0
        with q True skipped_date_of [of H dt] show ?thesis by auto
      next
        case (Suc i')
        with q b(4) have "days_before i' (date_of b) = Inr q" by simp
        with r(8) i Suc show ?thesis by simp
      qed
    qed
    from res r(5) r(6) b(3) reach before show ?thesis
      by (intro exI [of _ "r\<lparr>hour := 21, minute := 0, second := 0\<rparr>"] exI [of _ "Suc j"])
         (simp add: skipped_def)
  qed
qed

lemma strftime_Ymd_mk:
  "strftime_Ymd (mk_date y m d) =
     zero_pad 4 (str_int y) @ ''-'' @ zero_pad 2 (str_int m) @ ''-'' @ zero_pad 2 (str_int d)"
  "strftime_Ymd (mk_datetime y m d hh mm ss us) =
     zero_pad 4 (str_int y) @ ''-'' @ zero_pad 2 (str_int m) @ ''-'' @ zero_pad 2 (str_int d)"
  by (simp_all add: strftime_Ymd_def mk_date_def mk_datetime_def)

lemmas strftime_eval = strftime_Ymd_mk zero_pad_def str_int_def str_nat_step str_nat_base
  digit_char_def

lemma sub_one_day_mk:
  "sub_one_day (mk_date y m d) =
     (if 1 < d then Inr (mk_date y m (d - 1))
      else if 1 < m then Inr (mk_date y (m - 1) (days_in_month y (m - 1)))
      else if 1 < y then Inr (mk_date (y - 1) 12 31)
      else Inl OverflowError)"
  "sub_one_day (mk_datetime y m d hh mm ss us) =
     (if 1 < d then Inr (mk_datetime y m (d - 1) hh mm ss us)
      else if 1 < m then Inr (mk_datetime y (m - 1) (days_in_month y (m - 1)) hh mm ss us)
      else if 1 < y then Inr (mk_datetime (y - 1) 12 31 hh mm ss us)
      else Inl OverflowError)"
  by (simp_all add: sub_one_day_def mk_date_def mk_datetime_def)

lemma replace_mk_datetime:
  "(mk_datetime y m d hh mm ss us)\<lparr>hour := 21, minute := 0, second := 0\<rparr> =
     mk_datetime y m d 21 0 0 us"
  by (simp add: mk_datetime_def)

lemma sample_keys:
  "\<not> sample_holiday_lookup ''2021-07-06''" "\<not> sample_holiday_lookup ''2021-07-02''"
  "sample_holiday_lookup ''2021-07-05''"
  by (simp_all add: sample_holiday_lookup_def)

lemma strftime_samples:
  "strftime_Ymd (mk_datetime 2021 7 6 hh mm ss us) = ''2021-07-06''"
  "strftime_Ymd (mk_datetime 2021 7 5 hh mm ss us) = ''2021-07-05''"
  "strftime_Ymd (mk_datetime 2021 7 2 hh mm ss us) = ''2021-07-02''"
  "strftime_Ymd (mk_date 2021 7 2) = ''2021-07-02''"
  by (simp_all add: strftime_eval)

text \<open>The New Year rule, for a request whose years are all in the table.\<close>

lemma new_year_rule_in_range:
  assumes "\<forall>y\<in>set (normalize_years years). 2010 \<le> y \<and> y \<le> 2030"
  shows "\<exists>hs. us_market_holidays US years = Inr hs \<and>
     (\<forall>y\<in>set (normalize_years years).
        (weekday (mk_date y 1 1) \<noteq> 5 \<longrightarrow> PyDate (mk_date y 1 1) \<in> set hs) \<and>
        (weekday (mk_date y 1 1) = 5 \<and>
         PyDate (mk_date y 1 1) \<notin> set (filter_market_holidays (US (normalize_years years)))
           \<longrightarrow> PyDate (mk_date y 1 1) \<notin> set hs) \<and>
        (weekday (mk_date y 1 1) = 6 \<longrightarrow> PyDate (mk_date y 1 2) \<in> set hs))"
proof -
  let ?ys = "normalize_years years"
  let ?hs = "filter_market_holidays (US ?ys) @ concat (map new_year_dates ?ys) @
             map (\<lambda>y. projr (good_friday_entry y)) ?ys"
  have r: "us_market_holidays US years = Inr ?hs" by (rule us_market_holidays_ok [OF assms])
  have gf: "PyDate (mk_date y 1 1) \<notin> set (map (\<lambda>y. projr (good_friday_entry y)) ?ys)" for y
  proof
    assume "PyDate (mk_date y 1 1) \<in> set (map (\<lambda>y. projr (good_friday_entry y)) ?ys)"
    then obtain z where z: "z \<in> set ?ys" "PyDate (mk_date y 1 1) = projr (good_friday_entry z)"
      by auto
    from z(1) assms have zr: "2010 \<le> z" "z \<le> 2030" by auto
    from good_friday_entry_in_range [OF zr] obtain s and d :: datetime where
      "good_friday_entry z = Inr (PyDate (date_of d))" "month d = 3 \<or> month d = 4" by blast
    with z(2) show False by (auto simp: mk_date_def date_of_def)
  qed
  have "(weekday (mk_date y 1 1) \<noteq> 5 \<longrightarrow> PyDate (mk_date y 1 1) \<in> set ?hs) \<and>
        (weekday (mk_date y 1 1) = 5 \<and>
         PyDate (mk_date y 1 1) \<notin> set (filter_market_holidays (US ?ys))
           \<longrightarrow> PyDate (mk_date y 1 1) \<notin> set ?hs) \<and>
        (weekday (mk_date y 1 1) = 6 \<longrightarrow> PyDate (mk_date y 1 2) \<in> set ?hs)"
    if y: "y \<in> set ?ys" for y
  proof (intro conjI impI)
    assume "weekday (mk_date y 1 1) \<noteq> 5"
    then have "PyDate (mk_date y 1 1) \<in> set (new_year_dates y)" by (simp add: new_year_dates_def)
    with y show "PyDate (mk_date y 1 1) \<in> set ?hs" by auto
  next
    assume "weekday (mk_date y 1 1) = 6"
    then have "PyDate (mk_date y 1 2) \<in> set (new_year_dates y)" by (simp add: new_year_dates_def)
    with y show "PyDate (mk_date y 1 2) \<in> set ?hs" by auto
  next
    assume a: "weekday (mk_date y 1 1) = 5 \<and>
         PyDate (mk_date y 1 1) \<notin> set (filter_market_holidays (US ?ys))"
    have "PyDate (mk_date y 1 1) \<notin> set (concat (map new_year_dates ?ys))"
    proof
      assume "PyDate (mk_date y 1 1) \<in> set (concat (map new_year_dates ?ys))"
      then obtain z where "PyDate (mk_date y 1 1) \<in> set (new_year_dates z)" by auto
      from new_year_dates_are_dates [OF this] a show False by auto
    qed
    with a gf [of y] show "PyDate (mk_date y 1 1) \<notin> set ?hs" by simp
  qed
  with r show ?thesis by blast
qed

text \<open>A list is returned only for years of the table.\<close>

lemma us_market_holidays_Inr_range:
  assumes "us_market_holidays US years = Inr hs"
  shows "\<forall>y\<in>set (normalize_years years). 2010 \<le> y \<and> y \<le> 2030"
proof (rule ccontr)
  assume "\<not> (\<forall>y\<in>set (normalize_years years). 2010 \<le> y \<and> y \<le> 2030)"
  then have "\<exists>y\<in>set (normalize_years years). \<not> (2010 \<le> y \<and> y \<le> 2030)" by simp
  from good_friday_loop_KeyError [OF this] assms show False
    by (simp add: us_market_holidays_def Let_def split: sum.splits)
qed

lemma sample_2022_2023:
  "us_market_holidays sample_us_holidays (YearList [2022, 2023]) =
     Inr [PyDate (mk_date 2023 1 1), PyDate (mk_date 2023 1 2), PyDate (mk_date 2022 4 15),
          PyDate (mk_date 2023 4 7)]"
proof -
  have n: "new_year_dates 2022 = []"
    "new_year_dates 2023 = [PyDate (mk_date 2023 1 1), PyDate (mk_date 2023 1 2)]"
    by (simp_all add: new_year_dates_def weekday_2022 weekday_2023)
  have g: "good_friday_entry 2022 = Inr (PyDate (mk_date 2022 4 15))"
    "good_friday_entry 2023 = Inr (PyDate (mk_date 2023 4 7))"
    by (simp_all add: good_friday_entry_def good_fridays_def good_fridays_table_def
          strptime_Ymd_def digit_val_def digit_table_def days_in_month_def date_of_def mk_date_def)
  have "\<forall>y\<in>set (normalize_years (YearList [2022, 2023])). 2010 \<le> y \<and> y \<le> 2030"
    by (simp add: normalize_years_def)
  from us_market_holidays_ok [OF this, of sample_us_holidays] show ?thesis
    by (simp add: normalize_years_def sample_filter_2022_2023 n g)
qed

lemma length_str_nat_pos: "0 < length (str_nat n)"
  by (subst str_nat.simps) simp

lemma length_str_nat_small: "n < 1000 \<Longrightarrow> length (str_nat n) \<le> 3"
proof -
  assume n: "n < 1000"
  have a: "m < 10 \<Longrightarrow> length (str_nat m) = 1" for m by (simp add: str_nat_base)
  have b: "length (str_nat m) = length (str_nat (m div 10)) + 1" if "\<not> m < 10" for m
    using that by (simp add: str_nat_step)
  show ?thesis
  proof (cases "n < 10")
    case True
    with a show ?thesis by simp
  next
    case n10: False
    show ?thesis
    proof (cases "n div 10 < 10")
      case True
      with a [OF True] b [OF n10] show ?thesis by simp
    next
      case False
      from n have "n div 10 div 10 < 10" by simp
      from a [OF this] b [OF False] b [OF n10] show ?thesis by simp
    qed
  qed
qed

lemma length_str_nat_large: "10000 \<le> n \<Longrightarrow> 5 \<le> length (str_nat n)"
proof -
  assume n: "10000 \<le> n"
  have b: "length (str_nat m) = length (str_nat (m div 10)) + 1" if "\<not> m < 10" for m
    using that by (simp add: str_nat_step)
  from n have g: "\<not> n < 10" "\<not> n div 10 < 10" "\<not> n div 10 div 10 < 10"
    "\<not> n div 10 div 10 div 10 < 10" by simp_all
  from b [OF g(1)] b [OF g(2)] b [OF g(3)] b [OF g(4)]
    length_str_nat_pos [of "n div 10 div 10 div 10 div 10"]
  show ?thesis by (simp add: Suc_le_eq)
qed

text \<open>A year that does not print as four digits does not parse.\<close>

lemma strptime_new_year_ValueError:
  assumes "y < 1000 \<or> 9999 < y"
  shows "strptime_Ymd (str_int y @ ''-01-01'') = Inl ValueError"
proof (cases "y < 0")
  case True
  then obtain xs where s: "str_int y = CHR ''-'' # xs" by (simp add: str_int_def)
  show ?thesis
    by (simp add: strptime_Ymd_def s digit_val_def digit_table_def)
next
  case False
  then have s: "str_int y = str_nat (nat y)" by (simp add: str_int_def)
  have "length (str_nat (nat y)) \<noteq> 4"
  proof (cases "y < 1000")
    case True
    then have "nat y < 1000" by simp
    from length_str_nat_small [OF this] show ?thesis by simp
  next
    case False
    with assms have "10000 \<le> nat y" by simp
    from length_str_nat_large [OF this] show ?thesis by simp
  qed
  then show ?thesis by (simp add: strptime_Ymd_def s)
qed

lemma us_market_holidays_ValueError:
  assumes "y < 1000 \<or> 9999 < y"
  shows "us_market_holidays US (YearInt y) = Inl ValueError"
  using strptime_new_year_ValueError [OF assms]
  by (simp add: us_market_holidays_def normalize_years_def)


lemma us_market_holidays_four_digits:
  assumes "1000 \<le> y" and "y \<le> 9999"
  shows "us_market_holidays US (YearInt y) =
           (if 2010 \<le> y \<and> y \<le> 2030
            then Inr (filter_market_holidays (US [y]) @ new_year_dates y @
                      [projr (good_friday_entry y)])
            else Inl KeyError)"
proof (cases "2010 \<le> y \<and> y \<le> 2030")
  case True
  then have "\<forall>z\<in>set (normalize_years (YearInt y)). 2010 \<le> z \<and> z \<le> 2030"
    by (simp add: normalize_years_def)
  from us_market_holidays_ok [OF this, of US] True show ?thesis
    by (simp add: normalize_years_def)
next
  case False
  with assms have "us_market_holidays US (YearInt y) = Inl KeyError"
    by (intro us_market_holidays_KeyError) (simp_all add: normalize_years_def)
  with False show ?thesis by simp
qed






section \<open>The claims\<close>

text \<open>
  C10. An integer argument is normalised to the one-element list before anything else:
  \<^verbatim>\<open>us_market_holidays(y)\<close> and \<^verbatim>\<open>us_market_holidays([y])\<close> give the same result, list or
  exception, and that result is the one of a single round of each loop for \<open>y\<close>, on the
  calendar asked for the list \<open>[y]\<close>.
\<close>

theorem us_market_holidays_int_is_singleton:
  "normalize_years (YearInt y) = [y] \<and>
   us_market_holidays US (YearInt y) = us_market_holidays US (YearList [y]) \<and>
   us_market_holidays US (YearInt y) =
     (if y < 1000 \<or> 9999 < y then Inl ValueError
      else if 2010 \<le> y \<and> y \<le> 2030
      then Inr (filter_market_holidays (US [y]) @ new_year_dates y @
                [projr (good_friday_entry y)])
      else Inl KeyError)"
proof (intro conjI)
  show "normalize_years (YearInt y) = [y]" by (simp add: normalize_years_def)
  show "us_market_holidays US (YearInt y) = us_market_holidays US (YearList [y])"
    by (simp add: us_market_holidays_def normalize_years_def)
  show "us_market_holidays US (YearInt y) =
     (if y < 1000 \<or> 9999 < y then Inl ValueError
      else if 2010 \<le> y \<and> y \<le> 2030
      then Inr (filter_market_holidays (US [y]) @ new_year_dates y @
                [projr (good_friday_entry y)])
      else Inl KeyError)"
  proof (cases "y < 1000 \<or> 9999 < y")
    case True
    from us_market_holidays_ValueError [OF this, of US] True show ?thesis by simp
  next
    case False
    then have "1000 \<le> y" "y \<le> 9999" by simp_all
    from us_market_holidays_four_digits [OF this, of US] False show ?thesis by simp
  qed
qed

theorem us_market_holidays_int_is_singleton_witness:
  "normalize_years (YearInt 2021) = [2021] \<and>
   us_market_holidays sample_us_holidays (YearList [2021]) =
     Inr [PyDate (mk_date 2021 1 18), PyDate (mk_date 2021 2 15), PyDate (mk_date 2021 5 31),
          PyDate (mk_date 2021 7 4), PyDate (mk_date 2021 7 5), PyDate (mk_date 2021 9 6),
          PyDate (mk_date 2021 11 25), PyDate (mk_date 2021 12 24), PyDate (mk_date 2021 12 25),
          PyDate (mk_date 2021 1 1), PyDate (mk_date 2021 4 2)] \<and>
   us_market_holidays sample_us_holidays (YearList [2031]) = Inl KeyError \<and>
   us_market_holidays sample_us_holidays (YearList [999]) = Inl ValueError"
proof -
  note same = conjunct1 [OF conjunct2 [OF us_market_holidays_int_is_singleton]]
  note result = conjunct2 [OF conjunct2 [OF us_market_holidays_int_is_singleton]]
  have a: "normalize_years (YearInt 2021) = [2021]"
    by (rule conjunct1 [OF us_market_holidays_int_is_singleton])
  have b: "us_market_holidays sample_us_holidays (YearList [2021]) =
     Inr [PyDate (mk_date 2021 1 18), PyDate (mk_date 2021 2 15), PyDate (mk_date 2021 5 31),
          PyDate (mk_date 2021 7 4), PyDate (mk_date 2021 7 5), PyDate (mk_date 2021 9 6),
          PyDate (mk_date 2021 11 25), PyDate (mk_date 2021 12 24), PyDate (mk_date 2021 12 25),
          PyDate (mk_date 2021 1 1), PyDate (mk_date 2021 4 2)]"
    unfolding same [symmetric] by (rule sample_2021)
  have c: "us_market_holidays sample_us_holidays (YearList [2031]) = Inl KeyError"
    unfolding same [symmetric] by (simp add: result)
  have d: "us_market_holidays sample_us_holidays (YearList [999]) = Inl ValueError"
    unfolding same [symmetric] by (simp add: result)
  from a b c d show ?thesis by (intro conjI)
qed

text \<open>
  C6. For a year from 2010 to 2030, \<^verbatim>\<open>us_market_holidays(y)\<close> returns a list whose last
  element is the date the table \<^verbatim>\<open>good_fridays\<close> lists for the year, and everything else
  in the list comes from the external calendar or from the New Year rule.
\<close>

theorem good_friday_in_market_holidays:
  assumes "2010 \<le> y" and "y \<le> 2030"
  shows "\<exists>s d hs. good_fridays y = Some s \<and> strptime_Ymd s = Inr d \<and>
           us_market_holidays US (YearInt y) = Inr hs \<and>
           PyDate (date_of d) \<in> set hs \<and>
           hs = filter_market_holidays (US [y]) @ new_year_dates y @ [PyDate (date_of d)]"
proof -
  from good_friday_entry_in_range [OF assms] obtain s d where
    sd: "good_fridays y = Some s" "strptime_Ymd s = Inr d"
        "good_friday_entry y = Inr (PyDate (date_of d))" by blast
  from assms have "\<forall>z\<in>set (normalize_years (YearInt y)). 2010 \<le> z \<and> z \<le> 2030"
    by (simp add: normalize_years_def)
  from us_market_holidays_ok [OF this, of US] sd show ?thesis
    by (simp add: normalize_years_def)
qed

theorem good_friday_in_market_holidays_witness:
  "(2010::int) \<le> 2021 \<and> (2021::int) \<le> 2030 \<and>
   (\<exists>s d hs. good_fridays 2021 = Some s \<and> strptime_Ymd s = Inr d \<and>
           us_market_holidays sample_us_holidays (YearInt 2021) = Inr hs \<and>
           PyDate (date_of d) \<in> set hs \<and>
           hs = filter_market_holidays (sample_us_holidays [2021]) @ new_year_dates 2021 @
                [PyDate (date_of d)])"
  using good_friday_in_market_holidays [of 2021 sample_us_holidays] by simp

text \<open>
  C7 as stated fails for a year that does not print as four digits: building January 1
  with \<^verbatim>\<open>strptime\<close> raises \<^verbatim>\<open>ValueError\<close> in the second loop, before the Good Friday table
  is consulted.
\<close>

theorem year_999_raises_ValueError:
  "\<not> (2010 \<le> (999::int) \<and> (999::int) \<le> 2030) \<and>
   us_market_holidays sample_us_holidays (YearInt 999) = Inl ValueError"
  by (simp add: us_market_holidays_def normalize_years_def str_int_def str_nat_999
        strptime_Ymd_def)

text \<open>
  C7, amended. When every requested year prints as four digits (1000 to 9999) and at
  least one of them is outside 2010 to 2030, \<^verbatim>\<open>us_market_holidays\<close> raises \<^verbatim>\<open>KeyError\<close>
  from the Good Friday table, and no list is returned. A single year that does not print
  as four digits raises \<^verbatim>\<open>ValueError\<close> instead.
\<close>

theorem year_outside_table_raises_KeyError:
  "((\<forall>y\<in>set (normalize_years years). 1000 \<le> y \<and> y \<le> 9999) \<and>
    (\<exists>y\<in>set (normalize_years years). \<not> (2010 \<le> y \<and> y \<le> 2030)) \<longrightarrow>
      us_market_holidays US years = Inl KeyError) \<and>
   (z < 1000 \<or> 9999 < z \<longrightarrow> us_market_holidays US (YearInt z) = Inl ValueError)"
  using us_market_holidays_KeyError [of years US] us_market_holidays_ValueError [of z US]
  by blast

theorem year_outside_table_raises_KeyError_witness:
  "normalize_years (YearList [2021, 2031]) = [2021, 2031] \<and>
   (1000::int) \<le> 2021 \<and> (2031::int) \<le> 9999 \<and> \<not> (2031::int) \<le> 2030 \<and>
   us_market_holidays sample_us_holidays (YearList [2021, 2031]) = Inl KeyError \<and>
   (9999::int) < 12345 \<and>
   us_market_holidays sample_us_holidays (YearInt 12345) = Inl ValueError"
  using year_outside_table_raises_KeyError [of "YearList [2021, 2031]" sample_us_holidays 12345]
  by (simp add: normalize_years_def)

text \<open>
  C2. The claim fails on the code: on Good Friday 2021, a date that
  \<^verbatim>\<open>us_market_holidays(2021)\<close> lists, \<^verbatim>\<open>b_is_stock_market_open\<close> returns \<open>True\<close> at 10:00.
  The test compares the string \<^verbatim>\<open>now.strftime("%Y-%m-%d")\<close> with date objects.
\<close>

theorem market_open_on_good_friday_2021:
  "\<exists>hs. us_market_holidays sample_us_holidays (YearInt 2021) = Inr hs \<and>
        PyDate (date_of (mk_datetime 2021 4 2 10 0 0 0)) \<in> set hs \<and>
        b_is_stock_market_open sample_us_holidays (mk_datetime 2021 4 2 10 0 0 0) = Inr True"
proof -
  have w: "weekday (date_of (mk_datetime 2021 4 2 10 0 0 0)) \<le> 4"
    by (simp add: calendar_eval)
  have "b_is_stock_market_open sample_us_holidays (mk_datetime 2021 4 2 10 0 0 0) = Inr True"
    by (simp add: b_is_stock_market_open_weekday [OF w] Time_def)
  then show ?thesis by (simp add: sample_2021)
qed

text \<open>
  C4 as stated fails for a weekday whose year is not in the Good Friday table: the
  holiday list is computed before the clock is looked at, and it raises.
\<close>

theorem market_open_2031_raises_KeyError:
  "weekday (date_of (mk_datetime 2031 1 6 10 0 0 0)) \<le> 4 \<and>
   \<not> time_of (mk_datetime 2031 1 6 10 0 0 0) < Time 9 30 0 \<and>
   \<not> time_of (mk_datetime 2031 1 6 10 0 0 0) > Time 16 0 0 \<and>
   b_is_stock_market_open sample_us_holidays (mk_datetime 2031 1 6 10 0 0 0) = Inl KeyError"
proof -
  have "us_market_holidays sample_us_holidays (YearInt 2031) = Inl KeyError"
    by (rule us_market_holidays_KeyError) (simp_all add: normalize_years_def)
  then show ?thesis
    by (simp add: b_is_stock_market_open_def calendar_eval Time_def)
qed

text \<open>
  C4, amended. On a Saturday or Sunday \<^verbatim>\<open>b_is_stock_market_open\<close> returns \<open>False\<close>
  whatever the time and the year. On a weekday of a year from 2010 to 2030 that is not
  in the holiday list it returns \<open>True\<close> exactly when the time of day is neither before
  09:30:00 nor after 16:00:00. On a weekday of any other year it raises instead of
  returning: \<^verbatim>\<open>KeyError\<close> when the year prints as four digits, \<^verbatim>\<open>ValueError\<close> when it
  does not.
\<close>

theorem market_open_weekend_and_hours:
  "(weekday (date_of now) > 4 \<longrightarrow> b_is_stock_market_open US now = Inr False) \<and>
   (weekday (date_of now) \<le> 4 \<and> 2010 \<le> year now \<and> year now \<le> 2030 \<and>
    (\<forall>hs. us_market_holidays US (YearInt (year now)) = Inr hs \<longrightarrow>
          PyDate (date_of now) \<notin> set hs) \<longrightarrow>
    b_is_stock_market_open US now =
      Inr (\<not> time_of now < Time 9 30 0 \<and> \<not> time_of now > Time 16 0 0)) \<and>
   (weekday (date_of now) \<le> 4 \<and> 1000 \<le> year now \<and> year now \<le> 9999 \<and>
    \<not> (2010 \<le> year now \<and> year now \<le> 2030) \<longrightarrow>
    b_is_stock_market_open US now = Inl KeyError) \<and>
   (weekday (date_of now) \<le> 4 \<and> (year now < 1000 \<or> 9999 < year now) \<longrightarrow>
    b_is_stock_market_open US now = Inl ValueError)"
proof (intro conjI impI)
  assume "weekday (date_of now) > 4"
  then show "b_is_stock_market_open US now = Inr False"
    by (rule b_is_stock_market_open_weekend)
next
  assume "weekday (date_of now) \<le> 4 \<and> 2010 \<le> year now \<and> year now \<le> 2030 \<and>
    (\<forall>hs. us_market_holidays US (YearInt (year now)) = Inr hs \<longrightarrow>
          PyDate (date_of now) \<notin> set hs)"
  then show "b_is_stock_market_open US now =
      Inr (\<not> time_of now < Time 9 30 0 \<and> \<not> time_of now > Time 16 0 0)"
    by (intro b_is_stock_market_open_weekday) simp_all
next
  assume a: "weekday (date_of now) \<le> 4 \<and> 1000 \<le> year now \<and> year now \<le> 9999 \<and>
    \<not> (2010 \<le> year now \<and> year now \<le> 2030)"
  then have "us_market_holidays US (YearInt (year now)) = Inl KeyError"
    by (intro us_market_holidays_KeyError) (simp_all add: normalize_years_def)
  with a show "b_is_stock_market_open US now = Inl KeyError"
    by (simp add: b_is_stock_market_open_def)
next
  assume a: "weekday (date_of now) \<le> 4 \<and> (year now < 1000 \<or> 9999 < year now)"
  then have "us_market_holidays US (YearInt (year now)) = Inl ValueError"
    by (intro us_market_holidays_ValueError) simp
  with a show "b_is_stock_market_open US now = Inl ValueError"
    by (simp add: b_is_stock_market_open_def)
qed

theorem market_open_weekend_and_hours_witness:
  "weekday (date_of (mk_datetime 2021 7 3 12 0 0 0)) > 4 \<and>
   b_is_stock_market_open sample_us_holidays (mk_datetime 2021 7 3 12 0 0 0) = Inr False \<and>
   weekday (date_of (mk_datetime 2021 7 6 10 0 0 0)) \<le> 4 \<and>
   (\<exists>hs. us_market_holidays sample_us_holidays (YearInt 2021) = Inr hs \<and>
         PyDate (mk_date 2021 7 6) \<notin> set hs) \<and>
   b_is_stock_market_open sample_us_holidays (mk_datetime 2021 7 6 10 0 0 0) = Inr True \<and>
   b_is_stock_market_open sample_us_holidays (mk_datetime 2021 7 6 9 0 0 0) = Inr False \<and>
   b_is_stock_market_open sample_us_holidays (mk_datetime 2021 7 6 16 30 0 0) = Inr False \<and>
   weekday (date_of (mk_datetime 2009 12 31 10 0 0 0)) \<le> 4 \<and>
   b_is_stock_market_open sample_us_holidays (mk_datetime 2009 12 31 10 0 0 0) = Inl KeyError \<and>
   weekday (date_of (mk_datetime 999 6 3 10 0 0 0)) \<le> 4 \<and>
   b_is_stock_market_open sample_us_holidays (mk_datetime 999 6 3 10 0 0 0) = Inl ValueError"
proof -
  have sat: "weekday (date_of (mk_datetime 2021 7 3 12 0 0 0)) > 4"
    by (simp add: calendar_eval)
  have tue: "weekday (mk_date 2021 7 6) \<le> 4"
    by (simp add: calendar_eval)
  have thu: "weekday (mk_date 2009 12 31) \<le> 4"
    by (simp add: calendar_eval)
  have mon: "weekday (mk_date 999 6 3) \<le> 4"
    by (simp add: calendar_eval)
  have nh: "\<forall>hs. us_market_holidays sample_us_holidays (YearInt 2021) = Inr hs \<longrightarrow>
         PyDate (mk_date 2021 7 6) \<notin> set hs"
    by (simp add: sample_2021)
  from sat tue thu mon nh
    market_open_weekend_and_hours [of "mk_datetime 2021 7 3 12 0 0 0" sample_us_holidays]
    market_open_weekend_and_hours [of "mk_datetime 2021 7 6 10 0 0 0" sample_us_holidays]
    market_open_weekend_and_hours [of "mk_datetime 2021 7 6 9 0 0 0" sample_us_holidays]
    market_open_weekend_and_hours [of "mk_datetime 2021 7 6 16 30 0 0" sample_us_holidays]
    market_open_weekend_and_hours [of "mk_datetime 2009 12 31 10 0 0 0" sample_us_holidays]
    market_open_weekend_and_hours [of "mk_datetime 999 6 3 10 0 0 0" sample_us_holidays]
  show ?thesis by (simp add: Time_def sample_2021)
qed

text \<open>
  C1. The claim fails on the code: starting on Friday July 2, 2021, the first day
  \<^verbatim>\<open>get_next_stock_market_days\<close> returns is Monday July 5, 2021, the observed
  Independence Day, which \<^verbatim>\<open>us_market_holidays(2021)\<close> lists.
\<close>

theorem next_days_return_observed_july_4:
  "\<exists>hs. us_market_holidays sample_us_holidays (YearInt 2021) = Inr hs \<and>
        get_next_stock_market_days sample_us_holidays (mk_datetime 2021 7 2 0 0 0 0) 5 =
          Inr [mk_datetime 2021 7 5 0 0 0 0, mk_datetime 2021 7 6 0 0 0 0,
               mk_datetime 2021 7 7 0 0 0 0, mk_datetime 2021 7 8 0 0 0 0,
               mk_datetime 2021 7 9 0 0 0 0] \<and>
        PyDate (date_of (mk_datetime 2021 7 5 0 0 0 0)) \<in> set hs"
proof -
  have "get_next_stock_market_days sample_us_holidays (mk_datetime 2021 7 2 0 0 0 0) 5 =
          Inr [mk_datetime 2021 7 5 0 0 0 0, mk_datetime 2021 7 6 0 0 0 0,
               mk_datetime 2021 7 7 0 0 0 0, mk_datetime 2021 7 8 0 0 0 0,
               mk_datetime 2021 7 9 0 0 0 0]"
    by (simp add: get_next_stock_market_days_def next_days_loop.simps add_one_day_mk_datetime
          extend_holidays_sample_first extend_holidays_cached calendar_eval py_in_def)
  then show ?thesis by (simp add: sample_2021)
qed





text \<open>
  C8. The claim fails on the code: for Tuesday July 6, 2021 at 10:00:00.000001, a day
  that is neither in a weekend nor in the calendar, \<^verbatim>\<open>get_last_time_market_was_open\<close>
  returns 21:00:00.000001 of that day. \<^verbatim>\<open>replace(hour=21, minute=0, second=0)\<close> sets three
  of the four clock fields and leaves the microsecond of the input.
\<close>

theorem last_market_open_time_keeps_microsecond:
  "get_last_time_market_was_open sample_holiday_lookup (mk_datetime 2021 7 6 10 0 0 1) =
     Inr (mk_datetime 2021 7 6 21 0 0 1) \<and>
   time_of (mk_datetime 2021 7 6 21 0 0 1) \<noteq> Time 21 0 0"
proof -
  have "get_last_time_market_was_open sample_holiday_lookup (mk_datetime 2021 7 6 10 0 0 1) =
     Inr ((mk_datetime 2021 7 6 10 0 0 1)\<lparr>hour := 21, minute := 0, second := 0\<rparr>)"
    by (rule get_last_open) (simp_all add: calendar_eval strftime_samples sample_keys)
  then show ?thesis by (simp add: replace_mk_datetime Time_def)
qed

text \<open>
  C5 as stated fails for a requested year outside the Good Friday table: January 1, 2031
  is a Wednesday, and \<^verbatim>\<open>us_market_holidays(2031)\<close> raises \<^verbatim>\<open>KeyError\<close> in the third loop, so
  that no result holds New Year's Day.
\<close>

theorem new_year_2031_raises_KeyError:
  "normalize_years (YearInt 2031) = [2031] \<and> weekday (mk_date 2031 1 1) = 2 \<and>
   us_market_holidays sample_us_holidays (YearInt 2031) = Inl KeyError"
proof -
  have "us_market_holidays sample_us_holidays (YearInt 2031) = Inl KeyError"
    by (rule us_market_holidays_KeyError) (simp_all add: normalize_years_def)
  then show ?thesis by (simp add: normalize_years_def calendar_eval)
qed

text \<open>
  C5, amended. \<^verbatim>\<open>us_market_holidays\<close> returns a list exactly when every requested year is
  from 2010 to 2030. In the list it returns, for every requested year: January 1 is
  present unless it is a Saturday; when it is a Saturday the function does not add it,
  and it is present only if the external calendar itself lists that day under one of the
  market-holiday names; when it is a Sunday, January 2 is present too.
\<close>

theorem new_years_day_rule:
  "((\<exists>hs. us_market_holidays US years = Inr hs) =
      (\<forall>y\<in>set (normalize_years years). 2010 \<le> y \<and> y \<le> 2030)) \<and>
   (\<forall>hs. us_market_holidays US years = Inr hs \<longrightarrow>
      (\<forall>y\<in>set (normalize_years years).
         (weekday (mk_date y 1 1) \<noteq> 5 \<longrightarrow> PyDate (mk_date y 1 1) \<in> set hs) \<and>
         (weekday (mk_date y 1 1) = 5 \<longrightarrow>
            (PyDate (mk_date y 1 1) \<in> set hs) =
            (PyDate (mk_date y 1 1) \<in>
               set (filter_market_holidays (US (normalize_years years))))) \<and>
         (weekday (mk_date y 1 1) = 6 \<longrightarrow> PyDate (mk_date y 1 2) \<in> set hs)))"
proof (intro conjI allI impI ballI)
  show "(\<exists>hs. us_market_holidays US years = Inr hs) =
      (\<forall>y\<in>set (normalize_years years). 2010 \<le> y \<and> y \<le> 2030)"
    using us_market_holidays_Inr_range [of US years] us_market_holidays_ok [of years US]
    by blast
next
  fix hs y
  assume r: "us_market_holidays US years = Inr hs" and y: "y \<in> set (normalize_years years)"
  note rng = us_market_holidays_Inr_range [OF r]
  from new_year_rule_in_range [OF rng, of US] r y have
    rule: "(weekday (mk_date y 1 1) \<noteq> 5 \<longrightarrow> PyDate (mk_date y 1 1) \<in> set hs) \<and>
        (weekday (mk_date y 1 1) = 5 \<and>
         PyDate (mk_date y 1 1) \<notin> set (filter_market_holidays (US (normalize_years years)))
           \<longrightarrow> PyDate (mk_date y 1 1) \<notin> set hs) \<and>
        (weekday (mk_date y 1 1) = 6 \<longrightarrow> PyDate (mk_date y 1 2) \<in> set hs)"
    by auto
  from us_market_holidays_ok [OF rng, of US] r have
    sub: "set (filter_market_holidays (US (normalize_years years))) \<subseteq> set hs"
    by auto
  {
    assume "weekday (mk_date y 1 1) \<noteq> 5"
    with rule show "PyDate (mk_date y 1 1) \<in> set hs" by simp
  next
    assume "weekday (mk_date y 1 1) = 5"
    with rule sub show "(PyDate (mk_date y 1 1) \<in> set hs) =
            (PyDate (mk_date y 1 1) \<in>
               set (filter_market_holidays (US (normalize_years years))))"
      by auto
  next
    assume "weekday (mk_date y 1 1) = 6"
    with rule show "PyDate (mk_date y 1 2) \<in> set hs" by simp
  }
qed

theorem new_years_day_rule_witness:
  "us_market_holidays sample_us_holidays (YearList [2022, 2023]) =
     Inr [PyDate (mk_date 2023 1 1), PyDate (mk_date 2023 1 2), PyDate (mk_date 2022 4 15),
          PyDate (mk_date 2023 4 7)] \<and>
   normalize_years (YearList [2022, 2023]) = [2022, 2023] \<and>
   weekday (mk_date 2022 1 1) = 5 \<and> weekday (mk_date 2023 1 1) = 6 \<and>
   PyDate (mk_date 2022 1 1) \<notin>
     set (filter_market_holidays (sample_us_holidays (normalize_years (YearList [2022, 2023])))) \<and>
   PyDate (mk_date 2022 1 1) \<notin>
     set [PyDate (mk_date 2023 1 1), PyDate (mk_date 2023 1 2), PyDate (mk_date 2022 4 15),
          PyDate (mk_date 2023 4 7)] \<and>
   PyDate (mk_date 2023 1 1) \<in>
     set [PyDate (mk_date 2023 1 1), PyDate (mk_date 2023 1 2), PyDate (mk_date 2022 4 15),
          PyDate (mk_date 2023 4 7)] \<and>
   PyDate (mk_date 2023 1 2) \<in>
     set [PyDate (mk_date 2023 1 1), PyDate (mk_date 2023 1 2), PyDate (mk_date 2022 4 15),
          PyDate (mk_date 2023 4 7)]"
proof -
  note r = sample_2022_2023
  from r new_years_day_rule [of sample_us_holidays "YearList [2022, 2023]"]
  show ?thesis
    by (simp add: normalize_years_def weekday_2022 weekday_2023 sample_filter_2022_2023)
qed

end
